theory Spec2Isabelle
  imports Main "HOL-Library.Multiset"
begin

section \<open>The lyrics scraper (scraping/scrape\_main.py)\<close>

text \<open>
  The module is a set of coroutines that fetch pages of lyrics.com, pick names and
  links out of the parsed pages and write one text file per song. Everything the
  coroutines do to the outside is made explicit here:
  \<^item> an exception is a value of \<open>exn\<close>, and a coroutine returns \<open>Inl\<close> of it when the
    Python raises;
  \<^item> the file system, the output of \<open>print\<close>, the requests sent and the sleeps are
    fields of a \<open>world\<close> record that every coroutine takes and returns;
  \<^item> a coroutine that never returns (the retry loop of \<open>fetch\<close> has no bound) has the
    value \<open>None\<close>;
  \<^item> the network is the \<open>session\<close> argument of the source, the HTML parser is an
    argument \<open>bs\<close> (the call \<open>BeautifulSoup(text, features='html5lib')\<close>), and the
    order in which the children of \<open>asyncio.gather\<close> finish is an argument \<open>sched\<close>.
  The world is handed from one coroutine to the next: a coroutine is one step from its
  call to its return, and no two coroutines are under way at the same time. What a run
  leaves behind when every coroutine returns is described; the states in between, in
  which several tasks of the event loop are suspended half way, are not.
  A character is a code point below 256. Paths are those of \<open>posixpath\<close>. The default
  \<open>outputdir='.'\<close> of the source is an argument that is always given here. The command
  line entry \<open>main\<close> only hands its options to \<open>get_lyrics_com_artist\<close> and has no
  definition of its own.
\<close>

subsection \<open>Exceptions, the world, coroutines\<close>

text \<open>
  \<open>ClientOSError\<close> stands for \<open>aiohttp.client_exceptions.ClientOSError\<close> and its
  subclasses (what the \<open>except\<close> clause of \<open>fetch\<close> catches); it carries the \<open>errno\<close>
  attribute and the text that \<open>str(err)\<close> gives. The two are independent: a subclass
  such as \<open>ClientConnectorError\<close> prints the host and port, not the error number.
  \<open>OtherError\<close> is any exception of another class that the environment raises.
\<close>

datatype exn =
    ClientOSError int string
  | AttributeError
  | IndexError
  | TypeError
  | FileNotFoundError
  | OtherError string

datatype event = Request string | Print string | Sleep nat

record world =
  files :: "string \<rightharpoonup> string"
  dirs :: "string set"
  os_error :: "string \<Rightarrow> exn option"
  trace :: "event list"

text \<open>
  \<open>files\<close> maps a path to the contents of the file there, \<open>dirs\<close> holds the
  directories that \<open>os.makedirs\<close> was asked for, \<open>os_error p\<close> is the error with which
  the operating system refuses to create or open \<open>p\<close> (if any), and \<open>trace\<close> is what the
  run did besides, in order.
\<close>

type_synonym 'a task = "world \<Rightarrow> (world \<times> (exn + 'a)) option"

definition return :: "'a \<Rightarrow> 'a task" where
  "return x = (\<lambda>w. Some (w, Inr x))"

definition raise :: "exn \<Rightarrow> 'a task" where
  "raise e = (\<lambda>w. Some (w, Inl e))"

definition await :: "'a task \<Rightarrow> ('a \<Rightarrow> 'b task) \<Rightarrow> 'b task" where
  "await m f = (\<lambda>w. case m w of
       None \<Rightarrow> None
     | Some (w', Inl e) \<Rightarrow> Some (w', Inl e)
     | Some (w', Inr x) \<Rightarrow> f x w')"

definition log :: "event \<Rightarrow> world \<Rightarrow> world" where
  "log ev w = w\<lparr>trace := trace w @ [ev]\<rparr>"

definition print :: "string \<Rightarrow> unit task" where
  "print msg = (\<lambda>w. Some (log (Print msg) w, Inr ()))"

subsection \<open>Strings and paths\<close>

fun startswith :: "string \<Rightarrow> string \<Rightarrow> bool" where
  "startswith s [] = True"
| "startswith [] (p # ps) = False"
| "startswith (c # s) (p # ps) = (c = p \<and> startswith s ps)"

text \<open>\<open>py_in sub s\<close> is Python's \<open>sub in s\<close> on strings.\<close>

fun py_in :: "string \<Rightarrow> string \<Rightarrow> bool" where
  "py_in sub [] = (sub = [])"
| "py_in sub (c # s) = (startswith (c # s) sub \<or> py_in sub s)"

subsection \<open>fetch\<close>

text \<open>
  \<open>session.get(url)\<close> either raises or gives a response; the \<open>k\<close>-th call of
  \<open>response.text()\<close> on it either raises or gives the body.
\<close>

type_synonym response = "nat \<Rightarrow> exn + string"
type_synonym session = "string \<Rightarrow> exn + response"

text \<open>The \<open>while True\<close> loop of \<open>fetch\<close>, entered for the \<open>k\<close>-th read.\<close>

partial_function (option) fetch_loop ::
  "response \<Rightarrow> nat \<Rightarrow> world \<Rightarrow> (world \<times> (exn + string)) option" where
  "fetch_loop response k w =
     (case response k of
        Inr text \<Rightarrow> Some (w, Inr text)
      | Inl err \<Rightarrow>
          (case err of
             ClientOSError n s \<Rightarrow>
               if py_in ''54'' s
               then fetch_loop response (Suc k)
                      (log (Sleep 5) (log (Print ''connection reset, backing off'') w))
               else Some (w, Inl err)
           | _ \<Rightarrow> Some (w, Inl err)))"

definition fetch :: "session \<Rightarrow> string \<Rightarrow> string task" where
  "fetch session url = (\<lambda>w.
     case session url of
       Inl e \<Rightarrow> Some (log (Request url) w, Inl e)
     | Inr response \<Rightarrow> fetch_loop response 0 (log (Request url) w))"

subsection \<open>Parsed pages\<close>

text \<open>
  What \<open>BeautifulSoup(text, features='html5lib')\<close> returns: a tree of tags, each with
  its name, its attributes and its children, and of strings. The functions below are
  the operations of the \<open>bs4\<close> library that the source calls.
\<close>

datatype node = Tag string "(string \<times> string) list" "node list" | NavigableString string

text \<open>All nodes below a tag, in document order.\<close>

fun descendants :: "node \<Rightarrow> node list" where
  "descendants (Tag name attrs contents) = concat (map (\<lambda>c. c # descendants c) contents)"
| "descendants (NavigableString s) = []"

fun get_text :: "node \<Rightarrow> string" where
  "get_text (Tag name attrs contents) = concat (map get_text contents)"
| "get_text (NavigableString s) = s"

text \<open>
  \<open>split_where P s\<close> cuts \<open>s\<close> at every character that satisfies \<open>P\<close> and keeps the
  empty pieces, so \<open>str_split c s\<close> is Python's \<open>s.split(c)\<close> for a separator of one
  character.
\<close>

fun split_where :: "(char \<Rightarrow> bool) \<Rightarrow> string \<Rightarrow> string list" where
  "split_where P [] = [[]]"
| "split_where P (c # s) =
     (if P c then [] # split_where P s
      else (case split_where P s of [] \<Rightarrow> [[c]] | x # xs \<Rightarrow> (c # x) # xs))"

definition str_split :: "char \<Rightarrow> string \<Rightarrow> string list" where
  "str_split sep s = split_where (\<lambda>c. c = sep) s"

text \<open>
  The characters that Python's \<open>\s\<close> matches in a \<open>str\<close>, among the code points below 256:
  TAB, LF, VT, FF, CR, the separators \<open>0x1C\<close> to \<open>0x1F\<close>, the space, NEL and the no-break
  space.
\<close>

definition whitespace :: "char \<Rightarrow> bool" where
  "whitespace c =
     (c \<in> set [CHR 0x09, CHR 0x0A, CHR 0x0B, CHR 0x0C, CHR 0x0D, CHR 0x1C, CHR 0x1D, CHR 0x1E,
        CHR 0x1F, CHR 0x20, CHR 0x85, CHR 0xA0])"

text \<open>
  The value of a \<open>class\<close> attribute is a list of class names: the pieces of the value
  between whitespace.
\<close>

definition class_list :: "string \<Rightarrow> string list" where
  "class_list v = filter (\<lambda>x. x \<noteq> []) (split_where whitespace v)"

text \<open>
  One entry of the \<open>attrs\<close> dictionary given to \<open>find\<close>: the tag has the attribute, and
  its value is the wanted one; for \<open>class\<close>, one of its class names is the wanted one.
\<close>

definition attr_matches :: "(string \<times> string) list \<Rightarrow> string \<times> string \<Rightarrow> bool" where
  "attr_matches attrs kv =
     (case map_of attrs (fst kv) of
        None \<Rightarrow> False
      | Some v \<Rightarrow> if fst kv = ''class'' then snd kv \<in> set (class_list v) else v = snd kv)"

fun matches :: "string \<Rightarrow> (string \<times> string) list \<Rightarrow> node \<Rightarrow> bool" where
  "matches name want (Tag n attrs contents) = (n = name \<and> list_all (attr_matches attrs) want)"
| "matches name want (NavigableString s) = False"

definition bs_find_all :: "node \<Rightarrow> string \<Rightarrow> (string \<times> string) list \<Rightarrow> node list" where
  "bs_find_all tag name want = filter (matches name want) (descendants tag)"

text \<open>\<open>tag.find(name, attrs)\<close>: the first match, or Python's \<open>None\<close>.\<close>

definition bs_find :: "node \<Rightarrow> string \<Rightarrow> (string \<times> string) list \<Rightarrow> node option" where
  "bs_find tag name want = (case bs_find_all tag name want of [] \<Rightarrow> None | x # xs \<Rightarrow> Some x)"

text \<open>
  \<open>x.strong\<close>, \<open>x.a\<close>, \<open>x.h3\<close>: on a tag this is \<open>x.find(name)\<close>; a string has no such
  attribute.
\<close>

definition child_tag :: "node \<Rightarrow> string \<Rightarrow> exn + node option" where
  "child_tag x name =
     (case x of
        Tag n attrs contents \<Rightarrow> Inr (bs_find x name [])
      | NavigableString s \<Rightarrow> Inl AttributeError)"

text \<open>\<open>x.contents[i]\<close>.\<close>

definition contents_at :: "node \<Rightarrow> nat \<Rightarrow> exn + node" where
  "contents_at x i =
     (case x of
        Tag n attrs contents \<Rightarrow> if i < length contents then Inr (contents ! i) else Inl IndexError
      | NavigableString s \<Rightarrow> Inl AttributeError)"

text \<open>\<open>x.get(key)\<close>: the value of the attribute, or \<open>None\<close>.\<close>

definition get_attr :: "node \<Rightarrow> string \<Rightarrow> string option" where
  "get_attr x key = (case x of Tag n attrs contents \<Rightarrow> map_of attrs key | NavigableString s \<Rightarrow> None)"

subsection \<open>Dictionaries and paths\<close>

text \<open>
  A Python \<open>dict\<close> keeps its keys in the order of their first insertion, and
  \<open>d[k] = v\<close> on a key that is there replaces the value in place.
\<close>

fun setitem :: "('k \<times> 'v) list \<Rightarrow> 'k \<Rightarrow> 'v \<Rightarrow> ('k \<times> 'v) list" where
  "setitem [] k v = [(k, v)]"
| "setitem (p # d) k v = (if fst p = k then (k, v) # d else p # setitem d k v)"

text \<open>\<open>os.path.join(a, b)\<close> and \<open>os.path.dirname(p)\<close> of \<open>posixpath\<close>.\<close>

definition join :: "string \<Rightarrow> string \<Rightarrow> string" where
  "join a b =
     (if startswith b ''/'' then b
      else if a = [] \<or> last a = CHR ''/'' then a @ b
      else a @ ''/'' @ b)"

definition dirname :: "string \<Rightarrow> string" where
  "dirname p =
     (let head = rev (dropWhile (\<lambda>c. c \<noteq> CHR ''/'') (rev p))
      in if head \<noteq> [] \<and> \<not> list_all (\<lambda>c. c = CHR ''/'') head
         then rev (dropWhile (\<lambda>c. c = CHR ''/'') (rev head))
         else head)"

subsection \<open>write\<close>

text \<open>
  \<open>os.makedirs(name, exist_ok=True)\<close>: the empty name is no directory
  (\<open>FileNotFoundError\<close>); otherwise the directory is there afterwards, unless the
  operating system refuses.
\<close>

definition makedirs :: "string \<Rightarrow> unit task" where
  "makedirs name = (\<lambda>w.
     if name = [] then Some (w, Inl FileNotFoundError)
     else (case os_error w name of
             Some e \<Rightarrow> Some (w, Inl e)
           | None \<Rightarrow> Some (w\<lparr>dirs := insert name (dirs w)\<rparr>, Inr ())))"

text \<open>
  \<open>aiofiles.open(path, 'w')\<close> and the \<open>write\<close> of the whole contents, as one step: either the
  operating system refuses the file and nothing is changed, or the file holds the
  contents. The state between the two awaits, in which the file is there and empty,
  is no state of the model.
\<close>

definition open_write :: "string \<Rightarrow> string \<Rightarrow> unit task" where
  "open_write path contents = (\<lambda>w.
     case os_error w path of
       Some e \<Rightarrow> Some (w, Inl e)
     | None \<Rightarrow> Some (w\<lparr>files := (files w)(path \<mapsto> contents)\<rparr>, Inr ()))"

text \<open>The coroutine \<open>write(path, contents)\<close> of the source.\<close>

definition write_file :: "string \<Rightarrow> string \<Rightarrow> unit task" where
  "write_file path contents = await (makedirs (dirname path)) (\<lambda>_. open_write path contents)"

subsection \<open>Songs\<close>

text \<open>
  The link of a song comes from \<open>a.get('href')\<close> and is \<open>None\<close> when the anchor has no
  \<open>href\<close>; \<open>'http://lyrics.com' + None\<close> is a \<open>TypeError\<close>.
\<close>

definition get_lyrics_com_song ::
  "(string \<Rightarrow> node) \<Rightarrow> session \<Rightarrow> string option \<Rightarrow> string task" where
  "get_lyrics_com_song bs session song_fragment =
     (case song_fragment of
        None \<Rightarrow> raise TypeError
      | Some fragment \<Rightarrow>
          await (fetch session (''http://lyrics.com'' @ fragment)) (\<lambda>text.
            case bs_find (bs text) ''pre'' [(''id'', ''lyric-body-text'')] of
              None \<Rightarrow> raise AttributeError
            | Some pre \<Rightarrow> return (get_text pre)))"

definition get_and_write_lyrics_com_song ::
  "(string \<Rightarrow> node) \<Rightarrow> session \<Rightarrow> string \<Rightarrow> string \<Rightarrow> string option \<Rightarrow> unit task" where
  "get_and_write_lyrics_com_song bs session directory song_name song_fragment =
     await (get_lyrics_com_song bs session song_fragment) (\<lambda>text.
       await (write_file (join directory (song_name @ ''.txt'')) text) (\<lambda>_.
         print (''---written '' @ song_name)))"

subsection \<open>Listings\<close>

text \<open>
  The body of the loop of \<open>get_lyrics_com_songs_for_album\<close> on one row: an exception, or
  the text of the cell of a row that has no \<open>strong\<close> element (the row is skipped with
  a notice), or the name and the link of the song.
\<close>

definition song_row :: "node \<Rightarrow> exn + (string + string \<times> string option)" where
  "song_row row =
     (case contents_at row 1 of
        Inl e \<Rightarrow> Inl e
      | Inr cell \<Rightarrow>
          (case child_tag cell ''strong'' of
             Inl e \<Rightarrow> Inl e
           | Inr None \<Rightarrow> Inr (Inl (get_text cell))
           | Inr (Some strong) \<Rightarrow>
               (case child_tag strong ''a'' of
                  Inl e \<Rightarrow> Inl e
                | Inr None \<Rightarrow> Inl AttributeError
                | Inr (Some a) \<Rightarrow> Inr (Inr (get_text a, get_attr a ''href'')))))"

fun songs_loop ::
  "node list \<Rightarrow> (string \<times> string option) list \<Rightarrow> world \<Rightarrow>
   world \<times> (exn + (string \<times> string option) list)" where
  "songs_loop [] urls w = (w, Inr urls)"
| "songs_loop (row # rows) urls w =
     (case song_row row of
        Inl e \<Rightarrow> (w, Inl e)
      | Inr (Inl cell_text) \<Rightarrow>
          songs_loop rows urls
            (log (Print (''song '' @ [CHR 0x22] @ cell_text @ [CHR 0x22] @ '' does not have lyrics'')) w)
      | Inr (Inr (name, link)) \<Rightarrow> songs_loop rows (setitem urls name link) w)"

definition get_lyrics_com_songs_for_album ::
  "(string \<Rightarrow> node) \<Rightarrow> session \<Rightarrow> string \<Rightarrow> (string \<times> string option) list task" where
  "get_lyrics_com_songs_for_album bs session album =
     await (fetch session (''http://lyrics.com/album/'' @ album)) (\<lambda>text w.
       case bs_find (bs text) ''tbody'' [] of
         None \<Rightarrow> Some (w, Inl AttributeError)
       | Some tbody \<Rightarrow> Some (songs_loop (bs_find_all tbody ''tr'' []) [] w))"

text \<open>
  The body of the loop of \<open>get_lyrics_com_albums_for_artist\<close> on one \<open>div\<close>:
  \<open>div.h3.a.get_text()\<close> and \<open>div.h3.a.get('href').split('/')[-1]\<close>.
\<close>

definition album_div :: "node \<Rightarrow> exn + string \<times> string" where
  "album_div d =
     (case child_tag d ''h3'' of
        Inl e \<Rightarrow> Inl e
      | Inr None \<Rightarrow> Inl AttributeError
      | Inr (Some h3) \<Rightarrow>
          (case child_tag h3 ''a'' of
             Inl e \<Rightarrow> Inl e
           | Inr None \<Rightarrow> Inl AttributeError
           | Inr (Some a) \<Rightarrow>
               (case get_attr a ''href'' of
                  None \<Rightarrow> Inl AttributeError
                | Some href \<Rightarrow>
                    (case rev (str_split (CHR ''/'') href) of
                       [] \<Rightarrow> Inl IndexError
                     | x # xs \<Rightarrow> Inr (get_text a, x)))))"

fun albums_loop ::
  "node list \<Rightarrow> (string \<times> string) list \<Rightarrow> exn + (string \<times> string) list" where
  "albums_loop [] albums = Inr albums"
| "albums_loop (d # ds) albums =
     (case album_div d of
        Inl e \<Rightarrow> Inl e
      | Inr (name, url) \<Rightarrow> albums_loop ds (setitem albums name url))"

text \<open>The \<open>div\<close>s of the albums on the page of an artist.\<close>

definition album_divs :: "node \<Rightarrow> exn + node list" where
  "album_divs page =
     (case bs_find page ''div'' [(''id'', ''content-body'')] of
        None \<Rightarrow> Inl AttributeError
      | Some body \<Rightarrow>
          (case bs_find body ''div'' [(''class'', ''tdata-ext'')] of
             None \<Rightarrow> Inl AttributeError
           | Some tdata \<Rightarrow> Inr (bs_find_all tdata ''div'' [(''class'', ''clearfix'')])))"

definition get_lyrics_com_albums_for_artist ::
  "(string \<Rightarrow> node) \<Rightarrow> session \<Rightarrow> string \<Rightarrow> (string \<times> string) list task" where
  "get_lyrics_com_albums_for_artist bs client artist =
     await (fetch client (''http://lyrics.com/artist/'' @ artist)) (\<lambda>text.
       case album_divs (bs text) of
         Inl e \<Rightarrow> raise e
       | Inr divs \<Rightarrow>
           (case albums_loop divs [] of
              Inl e \<Rightarrow> raise e
            | Inr albums \<Rightarrow> return albums))"

subsection \<open>The aggregation points\<close>

text \<open>
  \<open>await asyncio.gather(*aws)\<close> with its default \<open>return_exceptions=False\<close>. The list holds
  the children in the order in which they finish, and each child is run as one step.
  When no child raises, the \<open>gather\<close> returns after the last of them, and what they
  have done is in the world. The first exception that a child raises is what the
  coroutine that awaits the \<open>gather\<close> gets; of that case the model gives the exception
  only: in the source the other children are under way by then, and what they have
  done so far and go on to do is not in the world that is returned here. A child that
  never returns makes the \<open>gather\<close> never return, so \<open>sched\<close> is to put such a child after
  the others.
\<close>

fun gather :: "unit task list \<Rightarrow> unit task" where
  "gather [] w = Some (w, Inr ())"
| "gather (t # ts) w =
     (case t w of
        None \<Rightarrow> None
      | Some (w', Inl e) \<Rightarrow> Some (w', Inl e)
      | Some (w', Inr u) \<Rightarrow> gather ts w')"

definition song_awaitables ::
  "(string \<Rightarrow> node) \<Rightarrow> session \<Rightarrow> string \<Rightarrow> (string \<times> string option) list \<Rightarrow> unit task list" where
  "song_awaitables bs session outputdir song_urls =
     map (\<lambda>(name, url). get_and_write_lyrics_com_song bs session outputdir name url) song_urls"

text \<open>
  \<open>sched\<close> puts the children into the order in which they finish; it is to return a
  permutation of its argument.
\<close>

definition get_lyrics_com_album ::
  "(string \<Rightarrow> node) \<Rightarrow> (unit task list \<Rightarrow> unit task list) \<Rightarrow> session \<Rightarrow> string \<Rightarrow> string \<Rightarrow>
   unit task" where
  "get_lyrics_com_album bs sched session album outputdir =
     await (get_lyrics_com_songs_for_album bs session album) (\<lambda>song_urls.
       gather (sched (song_awaitables bs session outputdir song_urls)))"

definition album_awaitables ::
  "(string \<Rightarrow> node) \<Rightarrow> (unit task list \<Rightarrow> unit task list) \<Rightarrow> session \<Rightarrow> string \<Rightarrow>
   (string \<times> string) list \<Rightarrow> unit task list" where
  "album_awaitables bs sched client outputdir albums =
     map (\<lambda>(name, album). get_lyrics_com_album bs sched client album (join outputdir name)) albums"

text \<open>
  \<open>client\<close> is the session that \<open>aiohttp.ClientSession()\<close> opens inside
  \<open>get_lyrics_com_artist\<close>.
\<close>

definition get_lyrics_com_artist ::
  "(string \<Rightarrow> node) \<Rightarrow> (unit task list \<Rightarrow> unit task list) \<Rightarrow> session \<Rightarrow> string \<Rightarrow> string \<Rightarrow>
   unit task" where
  "get_lyrics_com_artist bs sched client artist outputdir =
     await (get_lyrics_com_albums_for_artist bs client artist) (\<lambda>albums.
       gather (sched (album_awaitables bs sched client outputdir albums)))"

subsection \<open>What a run is observed by\<close>




text \<open>The names and links of the rows of a listing that have a link, one per row, in order.\<close>

fun song_entries :: "node list \<Rightarrow> (string \<times> string option) list" where
  "song_entries [] = []"
| "song_entries (row # rows) =
     (case song_row row of
        Inr (Inr entry) \<Rightarrow> entry # song_entries rows
      | _ \<Rightarrow> song_entries rows)"

text \<open>
  \<open>writes p c t\<close>: wherever the operating system refuses nothing, the task \<open>t\<close> returns
  and has put the contents \<open>c\<close> at the path \<open>p\<close> and done nothing else to the files.
\<close>

definition writes :: "string \<Rightarrow> string \<Rightarrow> unit task \<Rightarrow> bool" where
  "writes p c t \<longleftrightarrow>
     (\<forall>w. (\<forall>q. os_error w q = None) \<longrightarrow>
        (\<exists>w'. t w = Some (w', Inr ()) \<and> files w' = (files w)(p \<mapsto> c)
           \<and> os_error w' = os_error w))"

text \<open>The children with the given indices, as an order of finishing.\<close>

definition in_order :: "nat list \<Rightarrow> 'a list \<Rightarrow> 'a list" where
  "in_order order ts = map (\<lambda>i. ts ! i) (filter (\<lambda>i. i < length ts) order)"

subsection \<open>Test doubles\<close>

text \<open>
  A world with no files in which the operating system refuses nothing, a network that
  serves fixed bodies, a parser that is a table of documents, and the shapes of the
  pages that the extraction looks for.
\<close>

definition world0 :: world where
  "world0 = \<lparr>files = Map.empty, dirs = {}, os_error = (\<lambda>p. None), trace = []\<rparr>"

definition serve :: "(string \<times> string) list \<Rightarrow> session" where
  "serve pages url =
     (case map_of pages url of
        None \<Rightarrow> Inl (OtherError ''404'')
      | Some body \<Rightarrow> Inr (\<lambda>k. Inr body))"

definition parser :: "(string \<times> node) list \<Rightarrow> string \<Rightarrow> node" where
  "parser docs text = (case map_of docs text of None \<Rightarrow> Tag ''[document]'' [] [] | Some d \<Rightarrow> d)"

text \<open>A response whose first \<open>N\<close> reads raise \<open>err\<close> and whose later reads give \<open>body\<close>.\<close>

definition flaky :: "nat \<Rightarrow> exn \<Rightarrow> string \<Rightarrow> response" where
  "flaky N err body = (\<lambda>k. if k < N then Inl err else Inr body)"

definition song_page :: "string \<Rightarrow> node" where
  "song_page lyric =
     Tag ''[document]'' [] [Tag ''pre'' [(''id'', ''lyric-body-text'')] [NavigableString lyric]]"

definition link_row :: "string \<Rightarrow> string \<Rightarrow> node" where
  "link_row name href =
     Tag ''tr'' [] [Tag ''td'' [] [NavigableString ''1''],
       Tag ''td'' [] [Tag ''strong'' [] [Tag ''a'' [(''href'', href)] [NavigableString name]]]]"

definition plain_row :: "string \<Rightarrow> node" where
  "plain_row name =
     Tag ''tr'' [] [Tag ''td'' [] [NavigableString ''1''], Tag ''td'' [] [NavigableString name]]"

definition album_page :: "node list \<Rightarrow> node" where
  "album_page rows = Tag ''[document]'' [] [Tag ''table'' [] [Tag ''tbody'' [] rows]]"

definition album_entry :: "string \<Rightarrow> string \<Rightarrow> node" where
  "album_entry name href =
     Tag ''div'' [(''class'', ''clearfix'')]
       [Tag ''h3'' [] [Tag ''a'' [(''href'', href)] [NavigableString name]]]"

definition artist_page :: "node list \<Rightarrow> node" where
  "artist_page divs =
     Tag ''[document]'' []
       [Tag ''div'' [(''id'', ''content-body'')] [Tag ''div'' [(''class'', ''tdata-ext'')] divs]]"

text \<open>An album with the songs A, B and C.\<close>

definition pages_abc :: "(string \<times> string) list" where
  "pages_abc =
     [(''http://lyrics.com/album/alb'', ''ALB''), (''http://lyrics.com/a'', ''PA''),
      (''http://lyrics.com/b'', ''PB''), (''http://lyrics.com/c'', ''PC'')]"

definition docs_abc :: "(string \<times> node) list" where
  "docs_abc =
     [(''ALB'', album_page [link_row ''A'' ''/a'', link_row ''B'' ''/b'', link_row ''C'' ''/c'']),
      (''PA'', song_page ''la''), (''PB'', song_page ''lb''), (''PC'', song_page ''lc'')]"

text \<open>An album page with two rows for the song A and a row without a link between them.\<close>

definition pages_dup :: "(string \<times> string) list" where
  "pages_dup =
     [(''http://lyrics.com/album/alb'', ''ALB''), (''http://lyrics.com/a1'', ''P1''),
      (''http://lyrics.com/a2'', ''P2'')]"

definition docs_dup :: "(string \<times> node) list" where
  "docs_dup =
     [(''ALB'', album_page [link_row ''A'' ''/a1'', plain_row ''Intro'', link_row ''A'' ''/a2'']),
      (''P1'', song_page ''first''), (''P2'', song_page ''second'')]"

text \<open>The artist X with the one album \<open>Y Z\<close> that has the one song S.\<close>

definition pages_xyz :: "(string \<times> string) list" where
  "pages_xyz =
     [(''http://lyrics.com/artist/X'', ''ART''), (''http://lyrics.com/album/y-z-1'', ''ALB''),
      (''http://lyrics.com/lyric/1/S'', ''PS'')]"

definition docs_xyz :: "(string \<times> node) list" where
  "docs_xyz =
     [(''ART'', artist_page [album_entry ''Y Z'' ''/album/1/y-z-1'']),
      (''ALB'', album_page [link_row ''S'' ''/lyric/1/S'']),
      (''PS'', song_page ''la la'')]"

section \<open>Properties\<close>

subsection \<open>Substrings\<close>

lemma startswith_iff: "startswith s p \<longleftrightarrow> (\<exists>post. s = p @ post)"
  by (induction s p rule: startswith.induct) auto

lemma py_in_iff: "py_in sub s \<longleftrightarrow> (\<exists>pre post. s = pre @ sub @ post)"
proof (induction s)
  case Nil
  then show ?case by auto
next
  case (Cons c s)
  show ?case
  proof
    assume "py_in sub (c # s)"
    then consider "startswith (c # s) sub" | "py_in sub s" by auto
    then show "\<exists>pre post. c # s = pre @ sub @ post"
    proof cases
      case 1
      then obtain post where "c # s = sub @ post" by (auto simp: startswith_iff)
      then have "c # s = [] @ sub @ post" by simp
      then show ?thesis by blast
    next
      case 2
      then obtain pre post where "s = pre @ sub @ post" using Cons.IH by auto
      then have "c # s = (c # pre) @ sub @ post" by simp
      then show ?thesis by blast
    qed
  next
    assume "\<exists>pre post. c # s = pre @ sub @ post"
    then obtain pre post where e: "c # s = pre @ sub @ post" by blast
    show "py_in sub (c # s)"
    proof (cases pre)
      case Nil
      with e have "startswith (c # s) sub" by (auto simp: startswith_iff)
      then show ?thesis by simp
    next
      case (Cons a pre')
      with e have "s = pre' @ sub @ post" by simp
      then have "py_in sub s" using Cons.IH by blast
      then show ?thesis by simp
    qed
  qed
qed

subsection \<open>The retry loop\<close>

lemma fetch_loop_step:
  "response k = Inl (ClientOSError n s) \<Longrightarrow> py_in ''54'' s \<Longrightarrow>
   fetch_loop response k w =
   fetch_loop response (Suc k) (log (Sleep 5) (log (Print ''connection reset, backing off'') w))"
  by (subst fetch_loop.simps) simp

lemma fetch_loop_done:
  "response k = Inr body \<Longrightarrow> fetch_loop response k w = Some (w, Inr body)"
  by (subst fetch_loop.simps) simp

lemma fetch_loop_raise:
  "response k = Inl e \<Longrightarrow> \<not> (\<exists>n s. e = ClientOSError n s \<and> py_in ''54'' s) \<Longrightarrow>
   fetch_loop response k w = Some (w, Inl e)"
  by (subst fetch_loop.simps) (auto split: exn.splits)


lemma fetch_loop_trace:
  assumes "fetch_loop response k w = Some y"
  shows "\<exists>tr. fst y = w\<lparr>trace := trace w @ tr\<rparr>"
proof (rule fetch_loop.raw_induct
    [where P = "\<lambda>response k w y. \<exists>tr. fst y = w\<lparr>trace := trace w @ tr\<rparr>", OF _ assms], goal_cases)
  case (1 f response k w y)
  show ?case
  proof (cases "response k")
    case (Inr body)
    with 1(2) have "fst y = w\<lparr>trace := trace w @ []\<rparr>" by auto
    then show ?thesis by blast
  next
    case (Inl err)
    show ?thesis
    proof (cases "\<exists>n s. err = ClientOSError n s \<and> py_in ''54'' s")
      case True
      with Inl 1(2) have "f response (Suc k)
          (log (Sleep 5) (log (Print ''connection reset, backing off'') w)) = Some y"
        by auto
      from 1(1) [OF this] obtain tr where
        "fst y = (log (Sleep 5) (log (Print ''connection reset, backing off'') w))
           \<lparr>trace := trace (log (Sleep 5) (log (Print ''connection reset, backing off'') w)) @ tr\<rparr>"
        by blast
      then have "fst y = w\<lparr>trace := trace w @ ([Print ''connection reset, backing off'', Sleep 5] @ tr)\<rparr>"
        by (simp add: log_def)
      then show ?thesis by blast
    next
      case False
      with Inl 1(2) have "fst y = w\<lparr>trace := trace w @ []\<rparr>"
        by (auto split: exn.splits if_splits)
      then show ?thesis by blast
    qed
  qed
qed

lemma fetch_loop_returns:
  assumes "fetch_loop response k w = Some y"
  shows "\<exists>i. \<not> (\<exists>n s. response i = Inl (ClientOSError n s) \<and> py_in ''54'' s)"
proof (rule fetch_loop.raw_induct
    [where P = "\<lambda>response k w y. \<exists>i. \<not> (\<exists>n s. response i = Inl (ClientOSError n s) \<and> py_in ''54'' s)",
     OF _ assms], goal_cases)
  case (1 f response k w y)
  show ?case
  proof (cases "\<exists>n s. response k = Inl (ClientOSError n s) \<and> py_in ''54'' s")
    case True
    with 1(2) have "f response (Suc k)
        (log (Sleep 5) (log (Print ''connection reset, backing off'') w)) = Some y"
      by auto
    from 1(1) [OF this] show ?thesis .
  next
    case False
    then show ?thesis by blast
  qed
qed

lemma fetch_loop_forever:
  "\<forall>i. \<exists>n s. response i = Inl (ClientOSError n s) \<and> py_in ''54'' s \<Longrightarrow>
   fetch_loop response k w = None"
  using fetch_loop_returns [of response k w] by (cases "fetch_loop response k w") auto









subsection \<open>How the loop tells a reset from a failure\<close>

lemma transient_iff:
  "(\<exists>n pre post. e = ClientOSError n (pre @ ''54'' @ post)) \<longleftrightarrow>
   (\<exists>n s. e = ClientOSError n s \<and> py_in ''54'' s)"
  by (auto simp: py_in_iff)

text \<open>
  C8. A failed read of the body is retried (a notice, a sleep of 5, the next read)
  exactly when the exception is a \<open>ClientOSError\<close> whose text has \<open>54\<close> somewhere in it;
  every other exception, and a \<open>ClientOSError\<close> whose text has no \<open>54\<close>, is returned at
  once with the world as it was. The \<open>errno\<close> of the exception plays no part. When every
  read fails with such a text the loop never returns.
\<close>

theorem fetch_classifies_by_substring:
  "(response k = Inl e \<longrightarrow>
      fetch_loop response k w =
        (if \<exists>n pre post. e = ClientOSError n (pre @ ''54'' @ post)
         then fetch_loop response (Suc k)
                (log (Sleep 5) (log (Print ''connection reset, backing off'') w))
         else Some (w, Inl e)))
   \<and> ((\<forall>i. \<exists>n pre post. response i = Inl (ClientOSError n (pre @ ''54'' @ post))) \<longrightarrow>
      fetch_loop response k w = None)"
proof (intro conjI impI)
  assume r: "response k = Inl e"
  show "fetch_loop response k w =
        (if \<exists>n pre post. e = ClientOSError n (pre @ ''54'' @ post)
         then fetch_loop response (Suc k)
                (log (Sleep 5) (log (Print ''connection reset, backing off'') w))
         else Some (w, Inl e))"
  proof (cases "\<exists>n s. e = ClientOSError n s \<and> py_in ''54'' s")
    case True
    then have c: "\<exists>n pre post. e = ClientOSError n (pre @ ''54'' @ post)"
      using transient_iff [of e] by blast
    from True obtain n s where "e = ClientOSError n s" "py_in ''54'' s" by blast
    with r show ?thesis
      unfolding if_P [OF c] by (intro fetch_loop_step) auto
  next
    case False
    then have c: "\<not> (\<exists>n pre post. e = ClientOSError n (pre @ ''54'' @ post))"
      using transient_iff [of e] by blast
    from r False show ?thesis
      unfolding if_not_P [OF c] by (rule fetch_loop_raise)
  qed
next
  assume "\<forall>i. \<exists>n pre post. response i = Inl (ClientOSError n (pre @ ''54'' @ post))"
  then have "\<forall>i. \<exists>n s. response i = Inl (ClientOSError n s) \<and> py_in ''54'' s"
    by (metis py_in_iff)
  then show "fetch_loop response k w = None" by (rule fetch_loop_forever)
qed

theorem fetch_classifies_by_substring_witness:
  "fetch_loop (flaky 1 (ClientOSError 61
       ''Cannot connect to host lyrics.com:5400 ssl:default [Connection refused]'') ''la'') 0 world0 =
     Some (world0\<lparr>trace := [Print ''connection reset, backing off'', Sleep 5]\<rparr>, Inr ''la'')
   \<and> fetch_loop (flaky 1 (ClientOSError 104 ''[Errno 104] Connection reset by peer'') ''la'') 0 world0 =
     Some (world0, Inl (ClientOSError 104 ''[Errno 104] Connection reset by peer''))
   \<and> fetch_loop (\<lambda>k. Inl (ClientOSError 54 ''[Errno 54] Connection reset by peer'')) 0 world0 = None"
proof (intro conjI)
  let ?e = "ClientOSError 61 ''Cannot connect to host lyrics.com:5400 ssl:default [Connection refused]''"
  have "\<exists>n s. ?e = ClientOSError n s \<and> py_in ''54'' s" by simp
  then have c: "\<exists>n pre post. ?e = ClientOSError n (pre @ ''54'' @ post)"
    using transient_iff [of ?e] by blast
  have "flaky 1 ?e ''la'' 0 = Inl ?e" by (simp add: flaky_def)
  with fetch_classifies_by_substring [of "flaky 1 ?e ''la''" 0 ?e world0] c
  have "fetch_loop (flaky 1 ?e ''la'') 0 world0 =
        fetch_loop (flaky 1 ?e ''la'') (Suc 0)
          (log (Sleep 5) (log (Print ''connection reset, backing off'') world0))"
    by (simp only: if_True)
  also have "\<dots> = Some (log (Sleep 5) (log (Print ''connection reset, backing off'') world0), Inr ''la'')"
    by (rule fetch_loop_done) (simp add: flaky_def)
  finally show "fetch_loop (flaky 1 ?e ''la'') 0 world0 =
     Some (world0\<lparr>trace := [Print ''connection reset, backing off'', Sleep 5]\<rparr>, Inr ''la'')"
    by (simp add: log_def world0_def)
next
  let ?e = "ClientOSError 104 ''[Errno 104] Connection reset by peer''"
  have "\<not> (\<exists>n s. ?e = ClientOSError n s \<and> py_in ''54'' s)" by simp
  then have c: "\<not> (\<exists>n pre post. ?e = ClientOSError n (pre @ ''54'' @ post))"
    using transient_iff [of ?e] by blast
  have "flaky 1 ?e ''la'' 0 = Inl ?e" by (simp add: flaky_def)
  with fetch_classifies_by_substring [of "flaky 1 ?e ''la''" 0 ?e world0] c
  show "fetch_loop (flaky 1 ?e ''la'') 0 world0 = Some (world0, Inl ?e)"
    by (simp only: if_False)
next
  let ?r = "\<lambda>k::nat. Inl (ClientOSError 54 ''[Errno 54] Connection reset by peer'') :: exn + string"
  have "py_in ''54'' ''[Errno 54] Connection reset by peer''" by simp
  then have "\<exists>pre post. ''[Errno 54] Connection reset by peer'' = pre @ ''54'' @ post"
    by (simp only: py_in_iff)
  then have "\<forall>i. \<exists>n pre post. ?r i = Inl (ClientOSError n (pre @ ''54'' @ post))"
    by blast
  with fetch_classifies_by_substring [of ?r 0 undefined world0]
  show "fetch_loop ?r 0 world0 = None" by blast
qed

subsection \<open>Writing a file\<close>

lemma dirname_bare: "CHR ''/'' \<notin> set path \<Longrightarrow> dirname path = []"
proof -
  assume "CHR ''/'' \<notin> set path"
  then have "dropWhile (\<lambda>c. c \<noteq> CHR ''/'') (rev path) = []"
    by auto
  then show ?thesis by (simp add: dirname_def)
qed

text \<open>
  C10. For a path with no \<open>/\<close> in it the directory part is empty, \<open>os.makedirs\<close> fails
  on it with \<open>FileNotFoundError\<close> before any file is opened, and the world is left as it
  was, whatever the operating system would say to the file; so whenever the coroutine
  \<open>write\<close> succeeds, the directory part of the path is not empty.
\<close>

theorem write_needs_parent_directory:
  "(CHR ''/'' \<notin> set path \<longrightarrow>
      dirname path = [] \<and> write_file path contents w = Some (w, Inl FileNotFoundError))
   \<and> (write_file path contents w = Some (w', Inr ()) \<longrightarrow> dirname path \<noteq> [])"
  by (auto simp: dirname_bare write_file_def await_def makedirs_def)

theorem write_needs_parent_directory_witness:
  "os_error world0 ''A.txt'' = None
   \<and> write_file ''A.txt'' ''la'' world0 = Some (world0, Inl FileNotFoundError)
   \<and> write_file ''./A.txt'' ''la'' world0 =
       Some (world0\<lparr>files := [''./A.txt'' \<mapsto> ''la''], dirs := {''.''}\<rparr>, Inr ())
   \<and> dirname ''./A.txt'' \<noteq> []"
proof -
  have a: "write_file ''./A.txt'' ''la'' world0 =
       Some (world0\<lparr>files := [''./A.txt'' \<mapsto> ''la''], dirs := {''.''}\<rparr>, Inr ())"
    by (simp add: write_file_def await_def makedirs_def open_write_def dirname_def world0_def)
  have b: "CHR ''/'' \<notin> set ''A.txt''" by simp
  from write_needs_parent_directory [of "''A.txt''" "''la''" world0] b
    write_needs_parent_directory [of "''./A.txt''" "''la''" world0
      "world0\<lparr>files := [''./A.txt'' \<mapsto> ''la''], dirs := {''.''}\<rparr>"] a
  show ?thesis by (simp add: world0_def)
qed

subsection \<open>One song\<close>

lemmas task_defs = await_def return_def raise_def print_def log_def

lemmas page_defs = bs_find_def bs_find_all_def attr_matches_def class_list_def whitespace_def
  child_tag_def contents_at_def get_attr_def str_split_def

lemmas double_defs = world0_def serve_def parser_def flaky_def song_page_def link_row_def
  plain_row_def album_page_def album_entry_def artist_page_def

lemma fetch_frame:
  assumes "fetch session url w = Some (w', r)"
  shows "\<exists>tr. w' = w\<lparr>trace := trace w @ tr\<rparr>"
proof (cases "session url")
  case (Inl e)
  with assms have "w' = w\<lparr>trace := trace w @ [Request url]\<rparr>"
    by (simp add: fetch_def log_def)
  then show ?thesis by blast
next
  case (Inr response)
  with assms have "fetch_loop response 0 (log (Request url) w) = Some (w', r)"
    by (simp add: fetch_def)
  from fetch_loop_trace [OF this] obtain tr where
    "w' = (log (Request url) w)\<lparr>trace := trace (log (Request url) w) @ tr\<rparr>"
    by auto
  then have "w' = w\<lparr>trace := trace w @ (Request url # tr)\<rparr>"
    by (simp add: log_def)
  then show ?thesis by blast
qed

lemma get_lyrics_com_song_frame:
  assumes "get_lyrics_com_song bs session fragment w = Some (w', r)"
  shows "\<exists>tr. w' = w\<lparr>trace := trace w @ tr\<rparr>"
proof (cases fragment)
  case None
  with assms have "w' = w\<lparr>trace := trace w @ []\<rparr>"
    by (simp add: get_lyrics_com_song_def raise_def)
  then show ?thesis by blast
next
  case (Some frag)
  with assms obtain w1 r1 where f: "fetch session (''http://lyrics.com'' @ frag) w = Some (w1, r1)"
    and "w' = w1"
    by (auto simp: get_lyrics_com_song_def await_def raise_def return_def
        split: option.splits sum.splits prod.splits)
  with fetch_frame [OF f] show ?thesis by simp
qed

lemma write_file_files:
  "write_file path contents w = Some (w', r) \<Longrightarrow>
   (r = Inr () \<and> files w' = (files w)(path \<mapsto> contents)) \<or> (\<exists>e. r = Inl e \<and> files w' = files w)"
  by (auto simp: write_file_def await_def makedirs_def open_write_def
      split: if_splits option.splits)

text \<open>
  C7. When getting the text of a song fails (the fragment is no string, the fetch
  fails, or the page has no lyric element), \<open>get_and_write_lyrics_com_song\<close> fails with
  the same exception and no file and no directory has been made. Whenever it returns,
  the files are as they were or the one file of the song holds the whole text that
  \<open>get_lyrics_com_song\<close> returned.
\<close>

theorem failed_song_writes_nothing:
  "(get_lyrics_com_song bs session fragment w = Some (w1, Inl e) \<longrightarrow>
      get_and_write_lyrics_com_song bs session directory song_name fragment w = Some (w1, Inl e)
      \<and> files w1 = files w \<and> dirs w1 = dirs w)
   \<and> (get_and_write_lyrics_com_song bs session directory song_name fragment w = Some (w', r) \<longrightarrow>
      files w' = files w
      \<or> (\<exists>w2 lyric. get_lyrics_com_song bs session fragment w = Some (w2, Inr lyric)
            \<and> files w' = (files w)(join directory (song_name @ ''.txt'') \<mapsto> lyric)))"
proof (rule conjI; rule impI)
  assume a: "get_lyrics_com_song bs session fragment w = Some (w1, Inl e)"
  from get_lyrics_com_song_frame [OF a] obtain tr where "w1 = w\<lparr>trace := trace w @ tr\<rparr>"
    by blast
  with a show "get_and_write_lyrics_com_song bs session directory song_name fragment w = Some (w1, Inl e)
      \<and> files w1 = files w \<and> dirs w1 = dirs w"
    by (simp add: get_and_write_lyrics_com_song_def await_def)
next
  assume a: "get_and_write_lyrics_com_song bs session directory song_name fragment w = Some (w', r)"
  then obtain w2 r2 where g: "get_lyrics_com_song bs session fragment w = Some (w2, r2)"
    by (auto simp: get_and_write_lyrics_com_song_def await_def split: option.splits)
  from get_lyrics_com_song_frame [OF g] have fw: "files w2 = files w" by auto
  show "files w' = files w
      \<or> (\<exists>w2 lyric. get_lyrics_com_song bs session fragment w = Some (w2, Inr lyric)
            \<and> files w' = (files w)(join directory (song_name @ ''.txt'') \<mapsto> lyric))"
  proof (cases r2)
    case (Inl e)
    with a g fw show ?thesis
      by (simp add: get_and_write_lyrics_com_song_def await_def)
  next
    case (Inr lyric)
    with a g obtain w3 r3 where
      wr: "write_file (join directory (song_name @ ''.txt'')) lyric w2 = Some (w3, r3)"
      and "files w' = files w3"
      by (auto simp: get_and_write_lyrics_com_song_def await_def print_def log_def
          split: option.splits sum.splits)
    with write_file_files [OF wr] fw g Inr show ?thesis by auto
  qed
qed

theorem failed_song_writes_nothing_witness:
  "get_and_write_lyrics_com_song (parser [(''PB'', Tag ''[document]'' [] [])])
      (serve [(''http://lyrics.com/b'', ''PB'')]) ''out'' ''B'' (Some ''/b'') world0 =
     Some (world0\<lparr>trace := [Request ''http://lyrics.com/b'']\<rparr>, Inl AttributeError)
   \<and> get_and_write_lyrics_com_song (parser [(''PA'', song_page ''la la'')])
      (serve [(''http://lyrics.com/a'', ''PA'')]) ''out'' ''A'' (Some ''/a'') world0 =
     Some (world0\<lparr>files := [''out/A.txt'' \<mapsto> ''la la''], dirs := {''out''},
       trace := [Request ''http://lyrics.com/a'', Print ''---written A'']\<rparr>, Inr ())
   \<and> (\<exists>w2 lyric. get_lyrics_com_song (parser [(''PA'', song_page ''la la'')])
      (serve [(''http://lyrics.com/a'', ''PA'')]) (Some ''/a'') world0 = Some (w2, Inr lyric)
      \<and> [''out/A.txt'' \<mapsto> ''la la''] = (files world0)(join ''out'' (''A'' @ ''.txt'') \<mapsto> lyric))"
proof -
  have b: "get_lyrics_com_song (parser [(''PB'', Tag ''[document]'' [] [])])
      (serve [(''http://lyrics.com/b'', ''PB'')]) (Some ''/b'') world0 =
     Some (world0\<lparr>trace := [Request ''http://lyrics.com/b'']\<rparr>, Inl AttributeError)"
    by (simp add: get_lyrics_com_song_def fetch_def fetch_loop_done task_defs page_defs double_defs)
  have a: "get_and_write_lyrics_com_song (parser [(''PA'', song_page ''la la'')])
      (serve [(''http://lyrics.com/a'', ''PA'')]) ''out'' ''A'' (Some ''/a'') world0 =
     Some (world0\<lparr>files := [''out/A.txt'' \<mapsto> ''la la''], dirs := {''out''},
       trace := [Request ''http://lyrics.com/a'', Print ''---written A'']\<rparr>, Inr ())"
    by (simp add: get_and_write_lyrics_com_song_def get_lyrics_com_song_def fetch_def
        fetch_loop_done write_file_def makedirs_def open_write_def join_def dirname_def
        task_defs page_defs double_defs)
  from failed_song_writes_nothing
    [of "parser [(''PB'', Tag ''[document]'' [] [])]" "serve [(''http://lyrics.com/b'', ''PB'')]"
        "Some ''/b''" world0 "world0\<lparr>trace := [Request ''http://lyrics.com/b'']\<rparr>" AttributeError
        "''out''" "''B''"] b
  have 1: "get_and_write_lyrics_com_song (parser [(''PB'', Tag ''[document]'' [] [])])
      (serve [(''http://lyrics.com/b'', ''PB'')]) ''out'' ''B'' (Some ''/b'') world0 =
     Some (world0\<lparr>trace := [Request ''http://lyrics.com/b'']\<rparr>, Inl AttributeError)"
    by blast
  have n: "[''out/A.txt'' \<mapsto> ''la la''] \<noteq> files world0"
    by (simp add: world0_def)
  from failed_song_writes_nothing
    [of "parser [(''PA'', song_page ''la la'')]" "serve [(''http://lyrics.com/a'', ''PA'')]"
        "Some ''/a''" world0 _ _ "''out''" "''A''"
        "world0\<lparr>files := [''out/A.txt'' \<mapsto> ''la la''], dirs := {''out''},
           trace := [Request ''http://lyrics.com/a'', Print ''---written A'']\<rparr>" "Inr ()"] a n
  have 2: "\<exists>w2 lyric. get_lyrics_com_song (parser [(''PA'', song_page ''la la'')])
      (serve [(''http://lyrics.com/a'', ''PA'')]) (Some ''/a'') world0 = Some (w2, Inr lyric)
      \<and> [''out/A.txt'' \<mapsto> ''la la''] = (files world0)(join ''out'' (''A'' @ ''.txt'') \<mapsto> lyric)"
    by simp
  from 1 a 2 show ?thesis by blast
qed

subsection \<open>Dictionaries\<close>

lemma map_of_setitem: "map_of (setitem d k v) = (map_of d)(k \<mapsto> v)"
  by (induction d) (auto simp: fun_eq_iff)

lemma keys_setitem:
  "map fst (setitem d k v) = (if k \<in> fst ` set d then map fst d else map fst d @ [k])"
  by (induction d) (auto simp: image_iff)

lemma distinct_setitem: "distinct (map fst d) \<Longrightarrow> distinct (map fst (setitem d k v))"
  by (simp add: keys_setitem)

lemma set_setitem: "set (setitem d k v) \<subseteq> insert (k, v) (set d)"
  by (induction d) auto

subsection \<open>The listing of an album\<close>

lemma songs_loop_result:
  "songs_loop rows urls w = (w', Inr urls') \<Longrightarrow>
   map_of urls' = map_of urls ++ map_of (rev (song_entries rows))
   \<and> (distinct (map fst urls) \<longrightarrow> distinct (map fst urls'))"
proof (induction rows arbitrary: urls w)
  case Nil
  then show ?case by simp
next
  case (Cons row rows)
  show ?case
  proof (cases "song_row row")
    case (Inl e)
    with Cons.prems show ?thesis by simp
  next
    case (Inr x)
    show ?thesis
    proof (cases x)
      case (Inl cell_text)
      with Inr Cons.prems Cons.IH show ?thesis by simp
    next
      case r: (Inr entry)
      obtain name link where e: "entry = (name, link)" by (cases entry)
      with Inr r Cons.prems have "songs_loop rows (setitem urls name link) w = (w', Inr urls')"
        by simp
      from Cons.IH [OF this] Inr r e show ?thesis
        by (simp add: map_of_setitem distinct_setitem map_add_upd_left fun_eq_iff map_add_def
            split: option.splits)
    qed
  qed
qed

lemma map_of_rev_last:
  "k \<notin> fst ` set post \<Longrightarrow> map_of (rev (pre @ (k, v) # post)) k = Some v"
  by (simp add: map_add_def map_of_eq_None_iff split: option.splits)
    (metis image_set map_of_eq_None_iff option.distinct(1) set_rev)

lemma songs_for_album_page:
  assumes "get_lyrics_com_songs_for_album bs session album w = Some (w', Inr song_urls)"
  shows "\<exists>w1 body tbody.
      fetch session (''http://lyrics.com/album/'' @ album) w = Some (w1, Inr body)
      \<and> bs_find (bs body) ''tbody'' [] = Some tbody
      \<and> songs_loop (bs_find_all tbody ''tr'' []) [] w1 = (w', Inr song_urls)"
  using assms
  by (auto simp: get_lyrics_com_songs_for_album_def await_def
      split: option.splits sum.splits prod.splits)

text \<open>
  C9. The links of an album page are put into a dictionary keyed by the name of the
  song: the names of the result are distinct, \<open>get_lyrics_com_album\<close> makes one task per
  name, and the link kept for a name is the link of the last row that has this name;
  the links of earlier rows with the same name are dropped without a notice.
\<close>

theorem songs_keyed_by_name:
  assumes "get_lyrics_com_songs_for_album bs session album w = Some (w', Inr song_urls)"
  shows "distinct (map fst song_urls)
    \<and> length (song_awaitables bs session outputdir song_urls) = card (fst ` set song_urls)
    \<and> (\<exists>w1 body tbody.
          fetch session (''http://lyrics.com/album/'' @ album) w = Some (w1, Inr body)
          \<and> bs_find (bs body) ''tbody'' [] = Some tbody
          \<and> (\<forall>pre name link post.
                song_entries (bs_find_all tbody ''tr'' []) = pre @ (name, link) # post
                \<and> name \<notin> fst ` set post
                \<longrightarrow> map_of song_urls name = Some link))"
proof -
  from songs_for_album_page [OF assms] obtain w1 body tbody where
    f: "fetch session (''http://lyrics.com/album/'' @ album) w = Some (w1, Inr body)"
    and t: "bs_find (bs body) ''tbody'' [] = Some tbody"
    and l: "songs_loop (bs_find_all tbody ''tr'' []) [] w1 = (w', Inr song_urls)"
    by blast
  from songs_loop_result [OF l]
  have m: "map_of song_urls = map_of (rev (song_entries (bs_find_all tbody ''tr'' [])))"
    and d: "distinct (map fst song_urls)"
    by simp_all
  from d have "card (fst ` set song_urls) = length song_urls"
    by (metis distinct_card length_map set_map)
  then have c: "length (song_awaitables bs session outputdir song_urls) = card (fst ` set song_urls)"
    by (simp add: song_awaitables_def)
  have "\<forall>pre name link post.
          song_entries (bs_find_all tbody ''tr'' []) = pre @ (name, link) # post
          \<and> name \<notin> fst ` set post
          \<longrightarrow> map_of song_urls name = Some link"
    using m map_of_rev_last by metis
  with d c f t show ?thesis by blast
qed

lemmas crawl_defs = get_lyrics_com_album_def get_lyrics_com_songs_for_album_def
  song_awaitables_def get_and_write_lyrics_com_song_def
  get_lyrics_com_song_def fetch_def fetch_loop_done write_file_def makedirs_def open_write_def
  join_def dirname_def song_row_def

theorem songs_keyed_by_name_witness:
  "get_lyrics_com_songs_for_album (parser docs_dup) (serve pages_dup) ''alb'' world0 =
     Some (world0\<lparr>trace := [Request ''http://lyrics.com/album/alb'',
             Print (''song '' @ [CHR 0x22] @ ''Intro'' @ [CHR 0x22] @ '' does not have lyrics'')]\<rparr>,
           Inr [(''A'', Some ''/a2'')])
   \<and> length (song_awaitables (parser docs_dup) (serve pages_dup) ''out'' [(''A'', Some ''/a2'')]) =
       card (fst ` set [(''A'', Some ''/a2'')])
   \<and> get_lyrics_com_album (parser docs_dup) id (serve pages_dup) ''alb'' ''out'' world0 =
     Some (world0\<lparr>files := [''out/A.txt'' \<mapsto> ''second''], dirs := {''out''},
             trace := [Request ''http://lyrics.com/album/alb'',
               Print (''song '' @ [CHR 0x22] @ ''Intro'' @ [CHR 0x22] @ '' does not have lyrics''),
               Request ''http://lyrics.com/a2'', Print ''---written A'']\<rparr>, Inr ())"
proof -
  have a: "get_lyrics_com_songs_for_album (parser docs_dup) (serve pages_dup) ''alb'' world0 =
     Some (world0\<lparr>trace := [Request ''http://lyrics.com/album/alb'',
             Print (''song '' @ [CHR 0x22] @ ''Intro'' @ [CHR 0x22] @ '' does not have lyrics'')]\<rparr>,
           Inr [(''A'', Some ''/a2'')])"
    by (simp add: crawl_defs task_defs page_defs double_defs pages_dup_def docs_dup_def)
  have b: "get_lyrics_com_album (parser docs_dup) id (serve pages_dup) ''alb'' ''out'' world0 =
     Some (world0\<lparr>files := [''out/A.txt'' \<mapsto> ''second''], dirs := {''out''},
             trace := [Request ''http://lyrics.com/album/alb'',
               Print (''song '' @ [CHR 0x22] @ ''Intro'' @ [CHR 0x22] @ '' does not have lyrics''),
               Request ''http://lyrics.com/a2'', Print ''---written A'']\<rparr>, Inr ())"
    by (simp add: crawl_defs task_defs page_defs double_defs pages_dup_def docs_dup_def)
  from songs_keyed_by_name [OF a, of "''out''"]
  have "length (song_awaitables (parser docs_dup) (serve pages_dup) ''out'' [(''A'', Some ''/a2'')]) =
       card (fst ` set [(''A'', Some ''/a2'')])"
    by blast
  with a b show ?thesis by blast
qed

subsection \<open>The listing of an artist\<close>

lemma albums_loop_entries:
  "albums_loop divs albums = Inr albums' \<Longrightarrow>
   \<forall>entry\<in>set albums'. entry \<in> set albums \<or> (\<exists>d\<in>set divs. album_div d = Inr entry)"
proof (induction divs arbitrary: albums)
  case Nil
  then show ?case by simp
next
  case (Cons d divs)
  then obtain name url where e: "album_div d = Inr (name, url)"
    and l: "albums_loop divs (setitem albums name url) = Inr albums'"
    by (auto split: sum.splits)
  from Cons.IH [OF l] set_setitem [of albums name url] e show ?case
    by auto
qed

lemma album_div_link:
  "album_div d = Inr (name, slug) \<Longrightarrow>
   \<exists>h3 a href. child_tag d ''h3'' = Inr (Some h3) \<and> child_tag h3 ''a'' = Inr (Some a)
     \<and> get_attr a ''href'' = Some href \<and> name = get_text a
     \<and> slug = last (str_split (CHR ''/'') href)"
  by (auto simp: album_div_def last_rev [symmetric] simp del: last_rev
      split: sum.splits option.splits list.splits)

text \<open>
  C6, as amended. Whenever \<open>get_lyrics_com_albums_for_artist\<close> returns a mapping, each
  entry of it is the link of one of the album rows of the page: the name is the text
  of the link of the row and the value is the last \<open>/\<close>-segment of its \<open>href\<close>. The name
  is not looked at and may be empty.
\<close>

theorem album_entries_are_links:
  assumes "get_lyrics_com_albums_for_artist bs client artist w = Some (w', Inr albums)"
  shows "\<exists>body divs.
      fetch client (''http://lyrics.com/artist/'' @ artist) w = Some (w', Inr body)
      \<and> album_divs (bs body) = Inr divs
      \<and> (\<forall>(name, slug)\<in>set albums. \<exists>d\<in>set divs. \<exists>h3 a href.
            child_tag d ''h3'' = Inr (Some h3) \<and> child_tag h3 ''a'' = Inr (Some a)
            \<and> get_attr a ''href'' = Some href \<and> name = get_text a
            \<and> slug = last (str_split (CHR ''/'') href))"
proof -
  from assms obtain body divs where
    f: "fetch client (''http://lyrics.com/artist/'' @ artist) w = Some (w', Inr body)"
    and d: "album_divs (bs body) = Inr divs"
    and l: "albums_loop divs [] = Inr albums"
    by (auto simp: get_lyrics_com_albums_for_artist_def await_def raise_def return_def
        split: option.splits sum.splits prod.splits)
  from albums_loop_entries [OF l]
  have "\<forall>(name, slug)\<in>set albums. \<exists>d\<in>set divs. album_div d = Inr (name, slug)"
    by auto
  then have "\<forall>(name, slug)\<in>set albums. \<exists>d\<in>set divs. \<exists>h3 a href.
            child_tag d ''h3'' = Inr (Some h3) \<and> child_tag h3 ''a'' = Inr (Some a)
            \<and> get_attr a ''href'' = Some href \<and> name = get_text a
            \<and> slug = last (str_split (CHR ''/'') href)"
    using album_div_link by fast
  with f d show ?thesis by blast
qed

lemmas artist_defs = get_lyrics_com_albums_for_artist_def album_divs_def album_div_def
  get_lyrics_com_artist_def album_awaitables_def

theorem album_entries_are_links_witness:
  "get_lyrics_com_albums_for_artist
      (parser [(''ART'', artist_page [album_entry ''Floodland'' ''/album/1/floodland-1''])])
      (serve [(''http://lyrics.com/artist/X'', ''ART'')]) ''X'' world0 =
     Some (world0\<lparr>trace := [Request ''http://lyrics.com/artist/X'']\<rparr>, Inr [(''Floodland'', ''floodland-1'')])
   \<and> (\<exists>body divs.
      fetch (serve [(''http://lyrics.com/artist/X'', ''ART'')]) (''http://lyrics.com/artist/'' @ ''X'') world0 =
        Some (world0\<lparr>trace := [Request ''http://lyrics.com/artist/X'']\<rparr>, Inr body)
      \<and> album_divs (parser [(''ART'', artist_page [album_entry ''Floodland'' ''/album/1/floodland-1''])] body) = Inr divs
      \<and> (\<forall>(name, slug)\<in>set [(''Floodland'', ''floodland-1'')]. \<exists>d\<in>set divs. \<exists>h3 a href.
            child_tag d ''h3'' = Inr (Some h3) \<and> child_tag h3 ''a'' = Inr (Some a)
            \<and> get_attr a ''href'' = Some href \<and> name = get_text a
            \<and> slug = last (str_split (CHR ''/'') href)))"
proof -
  have a: "get_lyrics_com_albums_for_artist
      (parser [(''ART'', artist_page [album_entry ''Floodland'' ''/album/1/floodland-1''])])
      (serve [(''http://lyrics.com/artist/X'', ''ART'')]) ''X'' world0 =
     Some (world0\<lparr>trace := [Request ''http://lyrics.com/artist/X'']\<rparr>, Inr [(''Floodland'', ''floodland-1'')])"
    by (simp add: artist_defs crawl_defs task_defs page_defs double_defs)
  from album_entries_are_links [OF a] a show ?thesis by blast
qed

text \<open>
  On a page with an album row that has no link the extraction raises \<open>AttributeError\<close>
  (the row is not skipped and nothing is printed), and a link with no text gives an
  entry with the empty name.
\<close>

theorem album_row_without_link_counterexample:
  "get_lyrics_com_albums_for_artist
      (parser [(''ART'', artist_page [album_entry ''Floodland'' ''/album/1/floodland-1'',
         Tag ''div'' [(''class'', ''clearfix'')] [NavigableString ''Unknown album'']])])
      (serve [(''http://lyrics.com/artist/X'', ''ART'')]) ''X'' world0 =
     Some (world0\<lparr>trace := [Request ''http://lyrics.com/artist/X'']\<rparr>, Inl AttributeError)
   \<and> get_lyrics_com_albums_for_artist
      (parser [(''ART'', artist_page [album_entry '''' ''/album/1/floodland-1''])])
      (serve [(''http://lyrics.com/artist/X'', ''ART'')]) ''X'' world0 =
     Some (world0\<lparr>trace := [Request ''http://lyrics.com/artist/X'']\<rparr>, Inr [('''', ''floodland-1'')])"
  by (simp add: artist_defs crawl_defs task_defs page_defs double_defs)

subsection \<open>Listings change the trace only\<close>

lemma songs_loop_frame:
  "songs_loop rows urls w = (w', r) \<Longrightarrow> \<exists>tr. w' = w\<lparr>trace := trace w @ tr\<rparr>"
proof (induction rows arbitrary: urls w)
  case Nil
  then have "w' = w\<lparr>trace := trace w @ []\<rparr>" by simp
  then show ?case by blast
next
  case (Cons row rows)
  show ?case
  proof (cases "song_row row")
    case (Inl e)
    with Cons.prems have "w' = w\<lparr>trace := trace w @ []\<rparr>" by simp
    then show ?thesis by blast
  next
    case (Inr x)
    show ?thesis
    proof (cases x)
      case (Inl cell_text)
      let ?ev = "Print (''song '' @ [CHR 0x22] @ cell_text @ [CHR 0x22] @ '' does not have lyrics'')"
      from Inl Inr Cons.prems have "songs_loop rows urls (log ?ev w) = (w', r)" by simp
      from Cons.IH [OF this] obtain tr where
        "w' = (log ?ev w)\<lparr>trace := trace (log ?ev w) @ tr\<rparr>" by blast
      then have "w' = w\<lparr>trace := trace w @ (?ev # tr)\<rparr>" by (simp add: log_def)
      then show ?thesis by blast
    next
      case r: (Inr entry)
      with Inr Cons.prems Cons.IH show ?thesis by (auto split: prod.splits)
    qed
  qed
qed

lemma songs_for_album_frame:
  assumes "get_lyrics_com_songs_for_album bs session album w = Some (w', r)"
  shows "\<exists>tr. w' = w\<lparr>trace := trace w @ tr\<rparr>"
proof -
  from assms obtain w1 r1 where
    f: "fetch session (''http://lyrics.com/album/'' @ album) w = Some (w1, r1)"
    and c: "w' = w1 \<or> (\<exists>rows. songs_loop rows [] w1 = (w', r))"
    by (auto simp: get_lyrics_com_songs_for_album_def await_def
        split: option.splits sum.splits prod.splits)
  from fetch_frame [OF f] obtain tr1 where w1: "w1 = w\<lparr>trace := trace w @ tr1\<rparr>" by blast
  from c show ?thesis
  proof
    assume "w' = w1"
    with w1 show ?thesis by blast
  next
    assume "\<exists>rows. songs_loop rows [] w1 = (w', r)"
    then obtain rows where "songs_loop rows [] w1 = (w', r)" by blast
    from songs_loop_frame [OF this] obtain tr2 where "w' = w1\<lparr>trace := trace w1 @ tr2\<rparr>" by blast
    with w1 have "w' = w\<lparr>trace := trace w @ (tr1 @ tr2)\<rparr>" by simp
    then show ?thesis by blast
  qed
qed

lemma albums_for_artist_frame:
  assumes "get_lyrics_com_albums_for_artist bs client artist w = Some (w', r)"
  shows "\<exists>tr. w' = w\<lparr>trace := trace w @ tr\<rparr>"
proof -
  from assms obtain r1 where
    f: "fetch client (''http://lyrics.com/artist/'' @ artist) w = Some (w', r1)"
    by (auto simp: get_lyrics_com_albums_for_artist_def await_def raise_def return_def
        split: option.splits sum.splits prod.splits)
  from fetch_frame [OF f] show ?thesis .
qed

subsection \<open>A song that is fetched is written\<close>

lemma dirname_nonempty:
  assumes "CHR ''/'' \<in> set p"
  shows "dirname p \<noteq> []"
proof -
  let ?head = "rev (dropWhile (\<lambda>c. c \<noteq> CHR ''/'') (rev p))"
  from assms have h: "?head \<noteq> []" by (auto simp: dropWhile_eq_Nil_conv)
  show ?thesis
  proof (cases "list_all (\<lambda>c. c = CHR ''/'') ?head")
    case True
    with h show ?thesis by (simp add: dirname_def Let_def)
  next
    case False
    then have "dropWhile (\<lambda>c. c = CHR ''/'') (rev ?head) \<noteq> []"
      by (auto simp: dropWhile_eq_Nil_conv list_all_iff)
    with False h show ?thesis by (simp add: dirname_def Let_def)
  qed
qed

lemma join_has_slash: "a \<noteq> [] \<Longrightarrow> CHR ''/'' \<in> set (join a b)"
  by (auto simp: join_def startswith_iff) (metis last_in_set)

lemma write_file_ok:
  assumes "CHR ''/'' \<in> set p" and "\<forall>q. os_error w q = None"
  shows "write_file p c w =
         Some (w\<lparr>dirs := insert (dirname p) (dirs w), files := (files w)(p \<mapsto> c)\<rparr>, Inr ())"
  using assms dirname_nonempty [OF assms(1)]
  by (simp add: write_file_def await_def makedirs_def open_write_def)

lemma get_and_write_writes:
  assumes "\<And>w. \<exists>w'. get_lyrics_com_song bs session link w = Some (w', Inr lyric)"
    and "directory \<noteq> []"
  shows "writes (join directory (name @ ''.txt'')) lyric
           (get_and_write_lyrics_com_song bs session directory name link)"
  unfolding writes_def
proof (intro allI impI)
  fix w :: world
  assume os: "\<forall>q. os_error w q = None"
  from assms(1) obtain w1 where g: "get_lyrics_com_song bs session link w = Some (w1, Inr lyric)"
    by blast
  from get_lyrics_com_song_frame [OF g] obtain tr where w1: "w1 = w\<lparr>trace := trace w @ tr\<rparr>"
    by blast
  with os have os1: "\<forall>q. os_error w1 q = None" by simp
  let ?p = "join directory (name @ ''.txt'')"
  from write_file_ok [OF join_has_slash [OF assms(2)] os1]
  have "write_file ?p lyric w1 =
        Some (w1\<lparr>dirs := insert (dirname ?p) (dirs w1), files := (files w1)(?p \<mapsto> lyric)\<rparr>, Inr ())" .
  with g w1 show "\<exists>w'. get_and_write_lyrics_com_song bs session directory name link w = Some (w', Inr ())
      \<and> files w' = (files w)(?p \<mapsto> lyric) \<and> os_error w' = os_error w"
    by (simp add: get_and_write_lyrics_com_song_def await_def print_def log_def)
qed

subsection \<open>Children that all write\<close>

lemma gather_writes:
  "list_all2 (\<lambda>t pc. writes (fst pc) (snd pc) t) ts pcs \<Longrightarrow> \<forall>q. os_error w q = None \<Longrightarrow>
   \<exists>w'. gather ts w = Some (w', Inr ()) \<and> files w' = files w ++ map_of (rev pcs)
     \<and> os_error w' = os_error w"
proof (induction arbitrary: w rule: list_all2_induct)
  case Nil
  show ?case by simp
next
  case (Cons t ts pc pcs)
  from Cons.hyps(1) Cons.prems obtain w1 where
    t: "t w = Some (w1, Inr ())" and f: "files w1 = (files w)(fst pc \<mapsto> snd pc)"
    and o: "os_error w1 = os_error w"
    unfolding writes_def by blast
  from o Cons.prems have "\<forall>q. os_error w1 q = None" by simp
  from Cons.IH [OF this] obtain w' where
    g: "gather ts w1 = Some (w', Inr ())" and f': "files w' = files w1 ++ map_of (rev pcs)"
    and o': "os_error w' = os_error w1"
    by blast
  from f f' have "files w' = files w ++ map_of (rev (pc # pcs))"
    by (cases pc) (simp add: fun_eq_iff map_add_def split: option.splits)
  with t g o o' show ?case by simp
qed

lemma map_of_rev_perm:
  assumes "distinct (map fst pcs)" and "mset pcs' = mset pcs"
  shows "map_of (rev pcs') = map_of pcs"
proof -
  from assms(2) have s: "set pcs' = set pcs" by (rule mset_eq_setD)
  from assms(2) have "mset (map fst pcs') = mset (map fst pcs)" by simp
  with assms(1) have "distinct (map fst pcs')" by (metis mset_eq_imp_distinct_iff)
  then have "distinct (map fst (rev pcs'))" by (simp add: rev_map [symmetric])
  with assms(1) s show ?thesis by (simp add: map_of_inject_set)
qed

lemma gather_writes_any_order:
  assumes "list_all2 (\<lambda>t pc. writes (fst pc) (snd pc) t) ts pcs"
    and "mset ts' = mset ts"
    and "distinct (map fst pcs)"
    and "\<forall>q. os_error w q = None"
  shows "\<exists>w'. gather ts' w = Some (w', Inr ()) \<and> files w' = files w ++ map_of pcs"
proof -
  from list_all2_reorder_left_invariance [OF assms(1) assms(2)] obtain pcs' where
    l: "list_all2 (\<lambda>t pc. writes (fst pc) (snd pc) t) ts' pcs'" and m: "mset pcs' = mset pcs"
    by blast
  from gather_writes [OF l assms(4)] obtain w' where
    "gather ts' w = Some (w', Inr ())" and "files w' = files w ++ map_of (rev pcs')"
    by blast
  with map_of_rev_perm [OF assms(3) m] show ?thesis by simp
qed

text \<open>
  C4. When the listing of the album gives the songs A, B and C with the links \<open>/a\<close>,
  \<open>/b\<close> and \<open>/c\<close>, the text of each of them can be got, the operating system refuses
  nothing and the output directory has a name, then in whatever order the three tasks
  finish \<open>get_lyrics_com_album\<close> returns without an exception, and the files are those
  from before and the three files \<open>A.txt\<close>, \<open>B.txt\<close> and \<open>C.txt\<close> of the output
  directory, each with the text of its song.
\<close>

theorem album_fan_out_complete:
  assumes "get_lyrics_com_songs_for_album bs session album w =
      Some (w0, Inr [(''A'', Some ''/a''), (''B'', Some ''/b''), (''C'', Some ''/c'')])"
    and "\<forall>w. \<exists>w'. get_lyrics_com_song bs session (Some ''/a'') w = Some (w', Inr la)"
    and "\<forall>w. \<exists>w'. get_lyrics_com_song bs session (Some ''/b'') w = Some (w', Inr lb)"
    and "\<forall>w. \<exists>w'. get_lyrics_com_song bs session (Some ''/c'') w = Some (w', Inr lc)"
    and "mset (sched (song_awaitables bs session outputdir
            [(''A'', Some ''/a''), (''B'', Some ''/b''), (''C'', Some ''/c'')])) =
         mset (song_awaitables bs session outputdir
            [(''A'', Some ''/a''), (''B'', Some ''/b''), (''C'', Some ''/c'')])"
    and "\<forall>q. os_error w q = None"
    and "outputdir \<noteq> []"
  shows "\<exists>w'. get_lyrics_com_album bs sched session album outputdir w = Some (w', Inr ())
    \<and> files w' = (files w)(join outputdir ''A.txt'' \<mapsto> la, join outputdir ''B.txt'' \<mapsto> lb,
         join outputdir ''C.txt'' \<mapsto> lc)"
proof -
  let ?ts = "song_awaitables bs session outputdir
            [(''A'', Some ''/a''), (''B'', Some ''/b''), (''C'', Some ''/c'')]"
  let ?pcs = "[(join outputdir ''A.txt'', la), (join outputdir ''B.txt'', lb),
            (join outputdir ''C.txt'', lc)]"
  from songs_for_album_frame [OF assms(1)] obtain tr where w0: "w0 = w\<lparr>trace := trace w @ tr\<rparr>"
    by blast
  with assms(6) have os: "\<forall>q. os_error w0 q = None" by simp
  have "writes (join outputdir (''A'' @ ''.txt'')) la
          (get_and_write_lyrics_com_song bs session outputdir ''A'' (Some ''/a''))"
    using assms(2,7) by (intro get_and_write_writes) auto
  moreover have "writes (join outputdir (''B'' @ ''.txt'')) lb
          (get_and_write_lyrics_com_song bs session outputdir ''B'' (Some ''/b''))"
    using assms(3,7) by (intro get_and_write_writes) auto
  moreover have "writes (join outputdir (''C'' @ ''.txt'')) lc
          (get_and_write_lyrics_com_song bs session outputdir ''C'' (Some ''/c''))"
    using assms(4,7) by (intro get_and_write_writes) auto
  ultimately have l: "list_all2 (\<lambda>t pc. writes (fst pc) (snd pc) t) ?ts ?pcs"
    by (simp add: song_awaitables_def)
  have d: "distinct (map fst ?pcs)" by (simp add: join_def)
  from gather_writes_any_order [OF l assms(5) d os] obtain w' where
    g: "gather (sched ?ts) w0 = Some (w', Inr ())" and f: "files w' = files w0 ++ map_of ?pcs"
    by blast
  from f w0 d have "files w' = (files w)(join outputdir ''A.txt'' \<mapsto> la,
      join outputdir ''B.txt'' \<mapsto> lb, join outputdir ''C.txt'' \<mapsto> lc)"
    by (auto simp: fun_eq_iff map_add_def)
  moreover from g assms(1)
  have "get_lyrics_com_album bs sched session album outputdir w = Some (w', Inr ())"
    by (simp add: get_lyrics_com_album_def await_def)
  ultimately show ?thesis by blast
qed

theorem album_fan_out_complete_witness:
  "\<exists>w'. get_lyrics_com_album (parser docs_abc) (in_order [2, 0, 1]) (serve pages_abc)
           ''alb'' ''out'' world0 = Some (w', Inr ())
    \<and> files w' = [''out/A.txt'' \<mapsto> ''la'', ''out/B.txt'' \<mapsto> ''lb'', ''out/C.txt'' \<mapsto> ''lc'']"
proof -
  have 1: "get_lyrics_com_songs_for_album (parser docs_abc) (serve pages_abc) ''alb'' world0 =
      Some (world0\<lparr>trace := [Request ''http://lyrics.com/album/alb'']\<rparr>,
            Inr [(''A'', Some ''/a''), (''B'', Some ''/b''), (''C'', Some ''/c'')])"
    by (simp add: crawl_defs task_defs page_defs double_defs pages_abc_def docs_abc_def)
  have 2: "\<forall>w. \<exists>w'. get_lyrics_com_song (parser docs_abc) (serve pages_abc) (Some ''/a'') w =
      Some (w', Inr ''la'')"
    by (simp add: crawl_defs task_defs page_defs double_defs pages_abc_def docs_abc_def)
  have 3: "\<forall>w. \<exists>w'. get_lyrics_com_song (parser docs_abc) (serve pages_abc) (Some ''/b'') w =
      Some (w', Inr ''lb'')"
    by (simp add: crawl_defs task_defs page_defs double_defs pages_abc_def docs_abc_def)
  have 4: "\<forall>w. \<exists>w'. get_lyrics_com_song (parser docs_abc) (serve pages_abc) (Some ''/c'') w =
      Some (w', Inr ''lc'')"
    by (simp add: crawl_defs task_defs page_defs double_defs pages_abc_def docs_abc_def)
  have 5: "mset (in_order [2, 0, 1] (song_awaitables (parser docs_abc) (serve pages_abc) ''out''
            [(''A'', Some ''/a''), (''B'', Some ''/b''), (''C'', Some ''/c'')])) =
         mset (song_awaitables (parser docs_abc) (serve pages_abc) ''out''
            [(''A'', Some ''/a''), (''B'', Some ''/b''), (''C'', Some ''/c'')])"
    unfolding song_awaitables_def in_order_def by simp
  have 6: "\<forall>q. os_error world0 q = None" by (simp add: world0_def)
  have 7: "''out'' \<noteq> []" by simp
  from album_fan_out_complete [where sched = "in_order [2, 0, 1]", OF 1 2 3 4 5 6 7] show ?thesis
    by (simp add: join_def world0_def)
qed

subsection \<open>The path of a song\<close>

text \<open>
  C5, as amended. For the album \<open>Y Z\<close> and the song \<open>S\<close>, whatever the artist identifier,
  the file written is exactly \<open><output>/Y Z/S.txt\<close>: the names of the album and of the
  song are used as they are, spaces kept, and the artist identifier is no component
  of the path.
\<close>

theorem song_path_is_output_album_song:
  assumes "get_lyrics_com_albums_for_artist bs client artist w = Some (w1, Inr [(''Y Z'', slug)])"
    and "get_lyrics_com_songs_for_album bs client slug w1 = Some (w2, Inr [(''S'', link)])"
    and "get_lyrics_com_song bs client link w2 = Some (w3, Inr lyric)"
    and "\<forall>t. sched [t] = [t]"
    and "\<forall>q. os_error w q = None"
    and "output \<noteq> []" and "last output \<noteq> CHR ''/''"
  shows "\<exists>w'. get_lyrics_com_artist bs sched client artist output w = Some (w', Inr ())
    \<and> files w' = (files w)(output @ ''/Y Z/S.txt'' \<mapsto> lyric)"
proof -
  from albums_for_artist_frame [OF assms(1)] obtain tr1 where
    w1: "w1 = w\<lparr>trace := trace w @ tr1\<rparr>" by blast
  from songs_for_album_frame [OF assms(2)] obtain tr2 where
    w2: "w2 = w1\<lparr>trace := trace w1 @ tr2\<rparr>" by blast
  from get_lyrics_com_song_frame [OF assms(3)] obtain tr3 where
    w3: "w3 = w2\<lparr>trace := trace w2 @ tr3\<rparr>" by blast
  from w1 w2 w3 assms(5) have os: "\<forall>q. os_error w3 q = None" and f: "files w3 = files w"
    by simp_all
  let ?p = "output @ ''/Y Z/S.txt''"
  from assms(6,7) have j: "join (join output ''Y Z'') (''S'' @ ''.txt'') = ?p"
    by (simp add: join_def)
  have "CHR ''/'' \<in> set ?p" by simp
  from write_file_ok [OF this os]
  have wr: "write_file ?p lyric w3 =
      Some (w3\<lparr>dirs := insert (dirname ?p) (dirs w3), files := (files w3)(?p \<mapsto> lyric)\<rparr>, Inr ())" .
  let ?w4 = "log (Print (''---written '' @ ''S''))
      (w3\<lparr>dirs := insert (dirname ?p) (dirs w3), files := (files w3)(?p \<mapsto> lyric)\<rparr>)"
  from assms(3) j wr
  have song: "get_and_write_lyrics_com_song bs client (join output ''Y Z'') ''S'' link w2 =
      Some (?w4, Inr ())"
    by (simp add: get_and_write_lyrics_com_song_def await_def print_def)
  with assms(2,4)
  have album: "get_lyrics_com_album bs sched client slug (join output ''Y Z'') w1 = Some (?w4, Inr ())"
    by (simp add: get_lyrics_com_album_def await_def song_awaitables_def)
  with assms(1,4)
  have "get_lyrics_com_artist bs sched client artist output w = Some (?w4, Inr ())"
    by (simp add: get_lyrics_com_artist_def await_def album_awaitables_def)
  moreover from f have "files ?w4 = (files w)(?p \<mapsto> lyric)" by (simp add: log_def)
  ultimately show ?thesis by blast
qed

theorem song_path_is_output_album_song_witness:
  "\<exists>w'. get_lyrics_com_artist (parser docs_xyz) id (serve pages_xyz) ''X'' ''out'' world0 =
           Some (w', Inr ())
    \<and> files w' = [''out/Y Z/S.txt'' \<mapsto> ''la la'']"
proof -
  have 1: "get_lyrics_com_albums_for_artist (parser docs_xyz) (serve pages_xyz) ''X'' world0 =
      Some (world0\<lparr>trace := [Request ''http://lyrics.com/artist/X'']\<rparr>, Inr [(''Y Z'', ''y-z-1'')])"
    by (simp add: artist_defs crawl_defs task_defs page_defs double_defs pages_xyz_def docs_xyz_def)
  have 2: "get_lyrics_com_songs_for_album (parser docs_xyz) (serve pages_xyz) ''y-z-1''
        (world0\<lparr>trace := [Request ''http://lyrics.com/artist/X'']\<rparr>) =
      Some (world0\<lparr>trace := [Request ''http://lyrics.com/artist/X'',
              Request ''http://lyrics.com/album/y-z-1'']\<rparr>, Inr [(''S'', Some ''/lyric/1/S'')])"
    by (simp add: crawl_defs task_defs page_defs double_defs pages_xyz_def docs_xyz_def)
  have 3: "get_lyrics_com_song (parser docs_xyz) (serve pages_xyz) (Some ''/lyric/1/S'')
        (world0\<lparr>trace := [Request ''http://lyrics.com/artist/X'',
              Request ''http://lyrics.com/album/y-z-1'']\<rparr>) =
      Some (world0\<lparr>trace := [Request ''http://lyrics.com/artist/X'',
              Request ''http://lyrics.com/album/y-z-1'', Request ''http://lyrics.com/lyric/1/S'']\<rparr>,
            Inr ''la la'')"
    by (simp add: crawl_defs task_defs page_defs double_defs pages_xyz_def docs_xyz_def)
  have 4: "\<forall>t::unit task. id [t] = [t]" by simp
  have 5: "\<forall>q. os_error world0 q = None" by (simp add: world0_def)
  have 6: "''out'' \<noteq> []" and 7: "last ''out'' \<noteq> CHR ''/''" by simp_all
  from song_path_is_output_album_song [where sched = id, OF 1 2 3 4 5 6 7] show ?thesis
    by (simp add: world0_def)
qed

text \<open>
  For the artist X the file is at \<open>out/Y Z/S.txt\<close>; nothing is at \<open>out/X/Y Z/S.txt\<close>.
\<close>

theorem artist_in_path_counterexample:
  "get_lyrics_com_artist (parser docs_xyz) id (serve pages_xyz) ''X'' ''out'' world0 =
     Some (world0\<lparr>files := [''out/Y Z/S.txt'' \<mapsto> ''la la''], dirs := {''out/Y Z''},
             trace := [Request ''http://lyrics.com/artist/X'', Request ''http://lyrics.com/album/y-z-1'',
               Request ''http://lyrics.com/lyric/1/S'', Print ''---written S'']\<rparr>, Inr ())
   \<and> [''out/Y Z/S.txt'' \<mapsto> ''la la''] ''out/X/Y Z/S.txt'' = None"
  by (simp add: artist_defs crawl_defs task_defs page_defs double_defs pages_xyz_def docs_xyz_def)

end
